theory Spec2Isabelle
  imports Complex_Main "HOL-Library.Log_Nat" "HOL-Library.Sublist" "HOL-Library.Multiset"
begin

section \<open>Python values used by the QR menu carbon calculator\<close>

subsection \<open>Strings\<close>

text \<open>
  A Python \<open>str\<close> is a sequence of Unicode code points. The keyword tables of the
  estimator contain the Turkish dotless i (U+0131 = 305), which does not fit the
  8-bit \<open>char\<close> of HOL, so a string is a list of code points. \<open>ascii\<close> embeds
  an ASCII literal.
\<close>

type_synonym str = "nat list"

definition ascii :: "string \<Rightarrow> str" where
  "ascii s = map of_char s"

text \<open>\<open>kw in s\<close> on strings: \<open>kw\<close> occurs in \<open>s\<close> as a contiguous run.\<close>

fun starts_with :: "str \<Rightarrow> str \<Rightarrow> bool" where
  "starts_with [] s = True"
| "starts_with (k # ks) [] = False"
| "starts_with (k # ks) (c # cs) = (k = c \<and> starts_with ks cs)"

fun str_in :: "str \<Rightarrow> str \<Rightarrow> bool" where
  "str_in kw [] = (kw = [])"
| "str_in kw (c # cs) = (starts_with kw (c # cs) \<or> str_in kw cs)"

text \<open>\<open>any(kw in dish_lower for kw in [...])\<close>\<close>

definition any_in :: "str list \<Rightarrow> str \<Rightarrow> bool" where
  "any_in kws dish_lower = list_ex (\<lambda>kw. str_in kw dish_lower) kws"

text \<open>
  \<open>str.lower()\<close> is a function of the Python runtime that follows the Unicode
  case tables. The estimator takes it as the parameter \<open>lower\<close>; every theorem about
  all dish names holds for every such function. On strings of ASCII code points
  \<open>str.lower()\<close> is \<open>ascii_lower\<close>, which the concrete evaluations use.
\<close>

definition ascii_lower :: "str \<Rightarrow> str" where
  "ascii_lower s = map (\<lambda>c. if 65 \<le> c \<and> c \<le> 90 then c + 32 else c) s"

subsection \<open>Floats\<close>

text \<open>
  A Python \<open>float\<close> is an IEEE 754 binary64 number. A finite float is modelled by
  the rational it denotes, and every operation rounds its exact result to the
  nearest binary64 value, ties to even (\<open>fl\<close>): 53 significant bits, the unit in
  the last place being \<open>2 powi (ilog2 \<bar>x\<bar> - 52)\<close>. The model covers the normal
  range \<open>2 powi -1022 \<le> \<bar>x\<bar> < 2 powi 1024\<close>; every number the estimator computes lies
  in \<open>[0, 64)\<close>, and the aggregator only compares and sorts the values it is given.
\<close>

text \<open>Nearest integer, ties to the even one.\<close>

definition rne :: "rat \<Rightarrow> int" where
  "rne q = (let f = \<lfloor>q\<rfloor>; r = q - of_int f in
     if r < 1 / 2 then f else if 1 / 2 < r then f + 1 else if even f then f else f + 1)"

text \<open>\<open>ilog2 x\<close> is the binary exponent of a positive rational: \<open>2 powi ilog2 x \<le> x < 2 powi (ilog2 x + 1)\<close>.\<close>

definition ilog2 :: "rat \<Rightarrow> int" where
  "ilog2 x = (case quotient_of x of (p, q) \<Rightarrow>
     let k = bitlen p - bitlen q in if 2 powi k \<le> x then k else k - 1)"

definition fl :: "rat \<Rightarrow> rat" where
  "fl x = (if x = 0 then 0 else
     let u = 2 powi (ilog2 \<bar>x\<bar> - 52) in of_int (rne (x / u)) * u)"

definition fadd :: "rat \<Rightarrow> rat \<Rightarrow> rat" where
  "fadd a b = fl (a + b)"

definition fmul :: "rat \<Rightarrow> rat \<Rightarrow> rat" where
  "fmul a b = fl (a * b)"

datatype py_error = ZeroDivisionError

text \<open>True division \<open>a / b\<close>: it raises when the divisor is zero.\<close>

definition py_truediv :: "rat \<Rightarrow> rat \<Rightarrow> py_error + rat" where
  "py_truediv a b = (if b = 0 then Inl ZeroDivisionError else Inr (fl (a / b)))"

text \<open>The same division where the divisor is a non-zero literal.\<close>

definition fdiv :: "rat \<Rightarrow> rat \<Rightarrow> rat" where
  "fdiv a b = fl (a / b)"

text \<open>
  \<open>round(x, ndigits)\<close> on a float: CPython rounds the exact binary value to
  \<open>ndigits\<close> decimals, ties to even, and converts the decimal back to the nearest
  float.
\<close>

definition py_round :: "rat \<Rightarrow> nat \<Rightarrow> rat" where
  "py_round x ndigits = fl (of_int (rne (x * 10 ^ ndigits)) / 10 ^ ndigits)"

text \<open>
  \<open>sum(...)\<close> over floats, starting from the integer 0 and adding left to right.
  (CPython 3.12 and later also compensate the rounding errors of the partial sums;
  nothing below depends on the value of the sum of a non-empty list.)
\<close>

definition py_sum :: "rat list \<Rightarrow> rat" where
  "py_sum xs = foldl fadd 0 xs"

section \<open>The data model\<close>

record MenuItem =
  name :: str
  price :: rat
  description :: str
  carbon_footprint :: rat
  is_eco_friendly :: bool
  ingredients :: "str list"
  cooking_methods :: "str list"

text \<open>The two factor tables set up by \<open>CarbonCalculator.__init__\<close>.\<close>

record CarbonCalculator =
  carbon_factors :: "(str \<times> rat) list"
  cooking_factors :: "(str \<times> rat) list"

definition CarbonCalculator_init :: CarbonCalculator where
  "CarbonCalculator_init = \<lparr>
     carbon_factors =
       [(ascii ''beef'', fl 27.0), (ascii ''lamb'', fl 39.2), (ascii ''pork'', fl 12.1),
        (ascii ''chicken'', fl 6.9), (ascii ''fish'', fl 6.1), (ascii ''salmon'', fl 6.1),
        (ascii ''cheese'', fl 13.5), (ascii ''milk'', fl 3.2), (ascii ''butter'', fl 23.8),
        (ascii ''eggs'', fl 4.8), (ascii ''rice'', fl 2.7), (ascii ''pasta'', fl 0.9),
        (ascii ''bread'', fl 0.9), (ascii ''vegetables'', fl 2.0), (ascii ''tomatoes'', fl 2.1),
        (ascii ''potatoes'', fl 0.5), (ascii ''fruits'', fl 1.1), (ascii ''olive_oil'', fl 6.0),
        (ascii ''nuts'', fl 2.3), (ascii ''beans'', fl 2.0), (ascii ''quinoa'', fl 1.5)],
     cooking_factors =
       [(ascii ''oven'', fl 2.1), (ascii ''stovetop'', fl 1.8), (ascii ''grill'', fl 3.5),
        (ascii ''deep_fry'', fl 4.2), (ascii ''microwave'', fl 0.6), (ascii ''steam'', fl 1.0),
        (ascii ''raw'', fl 0.0)] \<rparr>"

text \<open>The dictionary returned by \<open>estimate_carbon_footprint\<close>, one field per key.\<close>

record carbon_data =
  d_ingredients :: "str list"
  d_cooking_methods :: "str list"
  d_total_carbon :: rat
  d_is_eco_friendly :: bool

section \<open>CarbonCalculator.estimate_carbon_footprint\<close>

text \<open>
  Each block of the function updates the local variables \<open>ingredients\<close> and
  \<open>total_carbon\<close>; a block is a function on that pair. The keyword lists and the
  order of the \<open>if\<close>/\<open>elif\<close> branches are those of the source.
\<close>

definition protein_detection :: "str \<Rightarrow> str list \<times> rat \<Rightarrow> str list \<times> rat" where
  "protein_detection dish_lower = (\<lambda>(ingredients, total_carbon).
     if any_in [ascii ''beef'', ascii ''steak'', ascii ''hamburger''] dish_lower
     then (ingredients @ [ascii ''beef''], fadd total_carbon (fmul (fl 27.0) (fl 0.25)))
     else if any_in [ascii ''chicken'', ascii ''tavuk''] dish_lower
     then (ingredients @ [ascii ''chicken''], fadd total_carbon (fmul (fl 6.9) (fl 0.2)))
     else if any_in [ascii ''fish'', ascii ''salmon'', ascii ''bal'' @ [305] @ ascii ''k''] dish_lower
     then (ingredients @ [ascii ''fish''], fadd total_carbon (fmul (fl 6.1) (fl 0.18)))
     else if any_in [ascii ''pork'', ascii ''bacon'', ascii ''ham''] dish_lower
     then (ingredients @ [ascii ''pork''], fadd total_carbon (fmul (fl 12.1) (fl 0.2)))
     else if any_in [ascii ''lamb'', ascii ''kuzu''] dish_lower
     then (ingredients @ [ascii ''lamb''], fadd total_carbon (fmul (fl 39.2) (fl 0.2)))
     else (ingredients, total_carbon))"

definition carbs_detection :: "str \<Rightarrow> str list \<times> rat \<Rightarrow> str list \<times> rat" where
  "carbs_detection dish_lower = (\<lambda>(ingredients, total_carbon).
     if any_in [ascii ''pasta'', ascii ''spaghetti'', ascii ''makarna''] dish_lower
     then (ingredients @ [ascii ''pasta''], fadd total_carbon (fmul (fl 0.9) (fl 0.1)))
     else if any_in [ascii ''rice'', ascii ''pilav'', ascii ''risotto''] dish_lower
     then (ingredients @ [ascii ''rice''], fadd total_carbon (fmul (fl 2.7) (fl 0.1)))
     else if any_in [ascii ''sandwich'', ascii ''burger'', ascii ''bread''] dish_lower
     then (ingredients @ [ascii ''bread''], fadd total_carbon (fmul (fl 0.9) (fl 0.08)))
     else if any_in [ascii ''quinoa''] dish_lower
     then (ingredients @ [ascii ''quinoa''], fadd total_carbon (fmul (fl 1.5) (fl 0.1)))
     else (ingredients, total_carbon))"

definition vegetables :: "str \<Rightarrow> str list \<times> rat \<Rightarrow> str list \<times> rat" where
  "vegetables dish_lower = (\<lambda>(ingredients, total_carbon).
     if any_in [ascii ''salad'', ascii ''salata'', ascii ''vegetables''] dish_lower
     then (ingredients @ [ascii ''vegetables''], fadd total_carbon (fmul (fl 2.0) (fl 0.2)))
     else (ingredients @ [ascii ''vegetables''], fadd total_carbon (fmul (fl 2.0) (fl 0.1))))"

definition dairy :: "str \<Rightarrow> str list \<times> rat \<Rightarrow> str list \<times> rat" where
  "dairy dish_lower = (\<lambda>(ingredients, total_carbon).
     if any_in [ascii ''cheese'', ascii ''peynir'', ascii ''parmesan''] dish_lower
     then (ingredients @ [ascii ''cheese''], fadd total_carbon (fmul (fl 13.5) (fl 0.05)))
     else (ingredients, total_carbon))"

text \<open>
  The cooking block returns \<open>(cooking_methods, cooking_carbon)\<close>. \<open>cooking_time\<close> is
  the integer 20, and \<open>cooking_time / 60\<close>, \<open>15 / 60\<close>, \<open>30 / 60\<close> are true
  divisions of integers.
\<close>

definition cooking_time :: rat where
  "cooking_time = 20"

definition cooking_method_detection :: "str \<Rightarrow> str list \<times> rat" where
  "cooking_method_detection dish_lower =
    (if any_in [ascii ''grilled'', [305] @ ascii ''zgara'', ascii ''grill''] dish_lower
     then ([ascii ''grill''], fmul (fl 3.5) (fdiv cooking_time 60))
     else if any_in [ascii ''fried'', ascii ''k'' @ [305] @ ascii ''zartma''] dish_lower
     then ([ascii ''deep_fry''], fmul (fl 4.2) (fdiv 15 60))
     else if any_in [ascii ''baked'', ascii ''roasted'', ascii ''f'' @ [305] @ ascii ''r'' @ [305] @ ascii ''n''] dish_lower
     then ([ascii ''oven''], fmul (fl 2.1) (fdiv 30 60))
     else if any_in [ascii ''salad'', ascii ''fresh'', ascii ''raw''] dish_lower
     then ([ascii ''raw''], fl 0.0)
     else ([ascii ''stovetop''], fmul (fl 1.8) (fdiv cooking_time 60)))"

text \<open>
  The values of \<open>ingredients\<close> and \<open>total_carbon\<close> when the cooking block starts,
  and the value of \<open>total_carbon\<close> after \<open>total_carbon += cooking_carbon\<close>, before it
  is rounded for the result.
\<close>

definition ingredient_pass :: "str \<Rightarrow> str list \<times> rat" where
  "ingredient_pass dish_lower =
     dairy dish_lower (vegetables dish_lower (carbs_detection dish_lower
       (protein_detection dish_lower ([], fl 0.0))))"

definition unrounded_total :: "str \<Rightarrow> rat" where
  "unrounded_total dish_lower =
     fadd (snd (ingredient_pass dish_lower)) (snd (cooking_method_detection dish_lower))"

definition estimate_carbon_footprint ::
    "(str \<Rightarrow> str) \<Rightarrow> CarbonCalculator \<Rightarrow> str \<Rightarrow> carbon_data" where
  "estimate_carbon_footprint lower self dish_name =
    (let dish_lower = lower dish_name;
         total_carbon = unrounded_total dish_lower
     in \<lparr> d_ingredients = fst (ingredient_pass dish_lower),
          d_cooking_methods = fst (cooking_method_detection dish_lower),
          d_total_carbon = py_round total_carbon 2,
          d_is_eco_friendly = (total_carbon < fl 2.0) \<rparr>)"

section \<open>QRMenuSystem\<close>

record QRMenuSystem =
  restaurant_name :: str
  calculator :: CarbonCalculator
  menu_items :: "MenuItem list"

definition QRMenuSystem_init :: "str \<Rightarrow> QRMenuSystem" where
  "QRMenuSystem_init rname =
     \<lparr> restaurant_name = rname, calculator = CarbonCalculator_init, menu_items = [] \<rparr>"

text \<open>
  \<open>add_menu_item\<close> returns the new item and appends it to \<open>self.menu_items\<close>; the
  model returns the updated system with the item. \<open>description or f"Delicious ..."\<close>
  takes the default when \<open>description\<close> is the empty string. The two \<open>print\<close> calls
  write to the terminal only.
\<close>

definition add_menu_item ::
    "(str \<Rightarrow> str) \<Rightarrow> QRMenuSystem \<Rightarrow> str \<Rightarrow> rat \<Rightarrow> str \<Rightarrow> QRMenuSystem \<times> MenuItem" where
  "add_menu_item lower self nm pr descr =
    (let carbon_data = estimate_carbon_footprint lower (calculator self) nm;
         item = \<lparr> name = nm,
                  price = pr,
                  description = (if descr \<noteq> [] then descr else ascii ''Delicious '' @ lower nm),
                  carbon_footprint = d_total_carbon carbon_data,
                  is_eco_friendly = d_is_eco_friendly carbon_data,
                  ingredients = d_ingredients carbon_data,
                  cooking_methods = d_cooking_methods carbon_data \<rparr>
     in (self\<lparr> menu_items := menu_items self @ [item] \<rparr>, item))"

subsection \<open>Statistics of the HTML menu\<close>

text \<open>\<open>sorted(self.menu_items, key=lambda x: x.carbon_footprint)\<close>; Python's sort is stable.\<close>

definition sorted_items :: "MenuItem list \<Rightarrow> MenuItem list" where
  "sorted_items items = sort_key carbon_footprint items"

text \<open>
  The numbers \<open>generate_html_menu\<close> computes before it writes the page, in the
  order of the source: the three statistics, the sorted list, and then, inside the
  f-string of the header, \<open>eco_items/total_items*100\<close>, which raises
  \<open>ZeroDivisionError\<close> when \<open>total_items\<close> is 0.
\<close>

record html_stats =
  h_total_items :: nat
  h_eco_items :: nat
  h_avg_carbon :: rat
  h_sorted_items :: "MenuItem list"
  h_eco_percent :: rat

definition html_statistics :: "MenuItem list \<Rightarrow> py_error + html_stats" where
  "html_statistics items =
    (let total_items = length items;
         eco_items = length (filter is_eco_friendly items)
     in case (if total_items > 0
              then py_truediv (py_sum (map carbon_footprint items)) (of_nat total_items)
              else Inr 0) of
          Inl e \<Rightarrow> Inl e
        | Inr avg_carbon \<Rightarrow>
           (let srt = sorted_items items
            in case py_truediv (of_nat eco_items) (of_nat total_items) of
                 Inl e \<Rightarrow> Inl e
               | Inr q \<Rightarrow>
                   Inr \<lparr> h_total_items = total_items, h_eco_items = eco_items,
                         h_avg_carbon = avg_carbon, h_sorted_items = srt,
                         h_eco_percent = fmul q 100 \<rparr>))"

text \<open>
  The whole body is inside \<open>try: ... except Exception\<close>, whose handler prints the
  failure and returns the empty string; otherwise the page is written and the file
  name is returned (the write itself is taken to succeed).
\<close>

definition generate_html_menu :: "QRMenuSystem \<Rightarrow> str \<Rightarrow> str" where
  "generate_html_menu self filename =
    (case html_statistics (menu_items self) of
       Inl e \<Rightarrow> []
     | Inr stats \<Rightarrow> filename)"

subsection \<open>Statistics of the sustainability report\<close>

text \<open>The slices \<open>sorted_items[:3]\<close> and \<open>sorted_items[-3:]\<close>.\<close>

definition first3 :: "'a list \<Rightarrow> 'a list" where
  "first3 xs = take 3 xs"

definition last3 :: "'a list \<Rightarrow> 'a list" where
  "last3 xs = (if length xs \<le> 3 then xs else drop (length xs - 3) xs)"

definition lowest_carbon :: "MenuItem list \<Rightarrow> MenuItem list" where
  "lowest_carbon items = first3 (sorted_items items)"

definition highest_carbon :: "MenuItem list \<Rightarrow> MenuItem list" where
  "highest_carbon items = last3 (sorted_items items)"

text \<open>The three list comprehensions of the carbon distribution.\<close>

definition low_carbon_items :: "MenuItem list \<Rightarrow> MenuItem list" where
  "low_carbon_items items = filter (\<lambda>i. carbon_footprint i < fl 2.0) items"

definition medium_carbon_items :: "MenuItem list \<Rightarrow> MenuItem list" where
  "medium_carbon_items items =
     filter (\<lambda>i. fl 2.0 \<le> carbon_footprint i \<and> carbon_footprint i < fl 4.0) items"

definition high_carbon_items :: "MenuItem list \<Rightarrow> MenuItem list" where
  "high_carbon_items items = filter (\<lambda>i. carbon_footprint i \<ge> fl 4.0) items"

record report_stats =
  r_total_items :: nat
  r_eco_items :: nat
  r_avg_carbon :: rat
  r_eco_percent :: rat
  r_lowest_carbon :: "MenuItem list"
  r_highest_carbon :: "MenuItem list"
  r_low_count :: nat
  r_medium_count :: nat
  r_high_count :: nat

text \<open>
  \<open>generate_report\<close> returns the empty string at once when there is no item
  (\<open>Inr None\<close> here); otherwise it computes the numbers of the report. Its body
  is inside \<open>try: ... except Exception\<close> as well.
\<close>

definition report_statistics :: "MenuItem list \<Rightarrow> py_error + report_stats option" where
  "report_statistics items =
    (let total_items = length items
     in if total_items = 0 then Inr None
        else
          (let eco_items = length (filter is_eco_friendly items)
           in case py_truediv (py_sum (map carbon_footprint items)) (of_nat total_items) of
                Inl e \<Rightarrow> Inl e
              | Inr avg_carbon \<Rightarrow>
                 (case py_truediv (of_nat eco_items) (of_nat total_items) of
                    Inl e \<Rightarrow> Inl e
                  | Inr q \<Rightarrow>
                      Inr (Some \<lparr> r_total_items = total_items,
                                  r_eco_items = eco_items,
                                  r_avg_carbon = avg_carbon,
                                  r_eco_percent = fmul q 100,
                                  r_lowest_carbon = lowest_carbon items,
                                  r_highest_carbon = highest_carbon items,
                                  r_low_count = length (low_carbon_items items),
                                  r_medium_count = length (medium_carbon_items items),
                                  r_high_count = length (high_carbon_items items) \<rparr>))))"

definition generate_report :: "QRMenuSystem \<Rightarrow> str \<Rightarrow> str" where
  "generate_report self filename =
    (case report_statistics (menu_items self) of
       Inl e \<Rightarrow> []
     | Inr None \<Rightarrow> []
     | Inr (Some stats) \<Rightarrow> filename)"

section \<open>Facts about the float model\<close>

lemma bitlen_powi_bounds:
  assumes "0 < (p::int)"
  shows "(2::rat) powi (bitlen p - 1) \<le> of_int p" "of_int p < (2::rat) powi (bitlen p)"
proof -
  from bitlen_bounds[OF assms] have a: "2 ^ nat (bitlen p - 1) \<le> p" and b: "p < 2 ^ nat (bitlen p)"
    by auto
  have ge1: "1 \<le> bitlen p" using assms by (auto simp: bitlen_alt_def)
  have "(of_int (2 ^ nat (bitlen p - 1)) :: rat) \<le> of_int p"
    using a by (simp only: of_int_le_iff)
  then show "(2::rat) powi (bitlen p - 1) \<le> of_int p"
    using ge1 by (simp add: power_int_def)
  have "(of_int p :: rat) < of_int (2 ^ nat (bitlen p))"
    using b by (simp only: of_int_less_iff)
  then show "of_int p < (2::rat) powi (bitlen p)"
    using ge1 by (simp add: power_int_def)
qed

lemma ilog2_bounds:
  assumes "0 < x"
  shows "2 powi ilog2 x \<le> x" "x < 2 powi (ilog2 x + 1)"
proof -
  obtain p q where pq: "quotient_of x = (p, q)" by force
  have q: "0 < q" using quotient_of_denom_pos[OF pq] .
  have x: "x = of_int p / of_int q" using quotient_of_div[OF pq] .
  have p: "0 < p" using assms q unfolding x by (simp add: zero_less_divide_iff)
  define k where "k = bitlen p - bitlen q"
  note bp = bitlen_powi_bounds[OF p] and bq = bitlen_powi_bounds[OF q]
  have qpos: "(0::rat) < of_int q" using q by simp
  have "x < 2 powi bitlen p / 2 powi (bitlen q - 1)"
    unfolding x using bp bq p
    by (intro frac_less) (auto intro: less_imp_le)
  also have "\<dots> = 2 powi (bitlen p - (bitlen q - 1))"
    by (subst power_int_diff) simp_all
  also have "bitlen p - (bitlen q - 1) = k + 1"
    by (simp add: k_def)
  finally have up: "x < 2 powi (k + 1)" .
  have "2 powi (bitlen p - 1) / 2 powi bitlen q < x"
    unfolding x using bp bq qpos
    by (intro frac_less2) (auto intro: less_imp_le)
  also have "2 powi (bitlen p - 1) / 2 powi bitlen q = (2::rat) powi (bitlen p - 1 - bitlen q)"
    by (subst power_int_diff) simp_all
  also have "bitlen p - 1 - bitlen q = k - 1"
    by (simp add: k_def)
  finally have lo: "2 powi (k - 1) < x" .
  have il: "ilog2 x = (if 2 powi k \<le> x then k else k - 1)"
    by (simp add: ilog2_def pq k_def Let_def)
  show "2 powi ilog2 x \<le> x" using lo by (simp add: il less_imp_le)
  show "x < 2 powi (ilog2 x + 1)" using up by (auto simp add: il not_le)
qed

lemma ilog2_unique:
  assumes "0 < x" "2 powi e \<le> x" "x < 2 powi (e + 1)"
  shows "ilog2 x = e"
proof -
  note b = ilog2_bounds[OF assms(1)]
  have "(2::rat) powi e < 2 powi (ilog2 x + 1)" using assms(2) b(2) by simp
  then have 1: "e < ilog2 x + 1"
    by (metis not_less one_le_numeral power_int_increasing)
  have "(2::rat) powi ilog2 x < 2 powi (e + 1)" using assms(3) b(1) by simp
  then have 2: "ilog2 x < e + 1"
    by (metis not_less one_le_numeral power_int_increasing)
  from 1 2 show ?thesis by simp
qed

lemma fl_cert:
  assumes "0 < x" "2 powi (e + 52) \<le> x" "x < 2 powi (e + 53)"
  shows "fl x = of_int (rne (x / 2 powi e)) * 2 powi e"
proof -
  have "ilog2 x = e + 52"
    using assms by (intro ilog2_unique) (simp_all add: add.commute add.left_commute)
  then show ?thesis using assms(1) by (simp add: fl_def Let_def)
qed

lemma rne_bounds: "of_int \<lfloor>q\<rfloor> \<le> (of_int (rne q) :: rat)" "rne q \<le> \<lfloor>q\<rfloor> + 1"
  by (simp_all add: rne_def Let_def)

lemma rne_of_int [simp]: "rne (of_int n) = n"
  by (simp add: rne_def)

lemma rne_mono:
  assumes "x \<le> y"
  shows "rne x \<le> rne y"
proof (cases "\<lfloor>x\<rfloor> = \<lfloor>y\<rfloor>")
  case True
  then have "x - of_int \<lfloor>x\<rfloor> \<le> y - of_int \<lfloor>y\<rfloor>" using assms by simp
  then show ?thesis using True by (auto simp add: rne_def Let_def)
next
  case False
  then have "\<lfloor>x\<rfloor> < \<lfloor>y\<rfloor>" using floor_mono[OF assms] by simp
  then have "rne x \<le> \<lfloor>y\<rfloor>" using rne_bounds(2)[of x] by simp
  moreover have "\<lfloor>y\<rfloor> \<le> rne y" using rne_bounds(1)[of y] by simp
  ultimately show ?thesis by simp
qed

lemma fl_pos_range:
  assumes "0 < x"
  shows "2 powi ilog2 x \<le> fl x" "fl x \<le> 2 powi (ilog2 x + 1)"
proof -
  define u :: rat where "u = 2 powi (ilog2 x - 52)"
  have u: "0 < u" by (simp add: u_def)
  have f: "fl x = of_int (rne (x / u)) * u" using assms by (simp add: fl_def Let_def u_def)
  note b = ilog2_bounds[OF assms]
  have e1: "(2::rat) powi ilog2 x = 2 ^ 52 * u"
    by (simp add: u_def power_int_diff)
  have e2: "(2::rat) powi (ilog2 x + 1) = 2 ^ 53 * u"
    by (simp add: u_def power_int_diff power_int_add)
  have "of_int (2 ^ 52) \<le> x / u" using b(1) u by (simp add: e1 pos_le_divide_eq)
  from rne_mono[OF this] have "2 ^ 52 \<le> rne (x / u)" by (simp only: rne_of_int)
  then have "(of_int (2 ^ 52) :: rat) \<le> of_int (rne (x / u))" by (simp only: of_int_le_iff)
  then show "2 powi ilog2 x \<le> fl x" using u by (simp add: f e1)
  have "x / u \<le> of_int (2 ^ 53)" using b(2) u by (simp add: e2 pos_divide_le_eq less_imp_le)
  from rne_mono[OF this] have "rne (x / u) \<le> 2 ^ 53" by (simp only: rne_of_int)
  then have "(of_int (rne (x / u)) :: rat) \<le> of_int (2 ^ 53)" by (simp only: of_int_le_iff)
  then show "fl x \<le> 2 powi (ilog2 x + 1)" using u by (simp add: f e2)
qed

lemma fl_mono_pos:
  assumes "0 < x" "x \<le> y"
  shows "fl x \<le> fl y"
proof -
  have y: "0 < y" using assms by simp
  note bx = ilog2_bounds[OF assms(1)] and by' = ilog2_bounds[OF y]
  have "(2::rat) powi ilog2 x < 2 powi (ilog2 y + 1)" using bx(1) assms(2) by'(2) by simp
  then have le: "ilog2 x \<le> ilog2 y"
    by (metis not_less one_le_numeral power_int_increasing zless_add1_eq order_less_le)
  show ?thesis
  proof (cases "ilog2 x = ilog2 y")
    case True
    define u :: rat where "u = 2 powi (ilog2 x - 52)"
    have u: "0 < u" by (simp add: u_def)
    have "x / u \<le> y / u" using assms(2) u by (simp add: divide_right_mono)
    from rne_mono[OF this] have "(of_int (rne (x / u)) :: rat) \<le> of_int (rne (y / u))"
      by (simp only: of_int_le_iff)
    then have "of_int (rne (x / u)) * u \<le> of_int (rne (y / u)) * u"
      using u by (simp add: mult_right_mono)
    then show ?thesis using assms(1) y True by (simp add: fl_def Let_def u_def)
  next
    case False
    then have "ilog2 x + 1 \<le> ilog2 y" using le by simp
    then have "(2::rat) powi (ilog2 x + 1) \<le> 2 powi ilog2 y"
      by (intro power_int_increasing) simp_all
    then show ?thesis using fl_pos_range(2)[OF assms(1)] fl_pos_range(1)[OF y] by simp
  qed
qed

lemma fl_zero [simp]: "fl 0 = 0" by (simp add: fl_def)

lemma fl_mono:
  assumes "0 \<le> x" "x \<le> y"
  shows "fl x \<le> fl y"
proof (cases "x = 0")
  case True
  show ?thesis
  proof (cases "y = 0")
    case True
    with \<open>x = 0\<close> show ?thesis by simp
  next
    case False
    then have "0 < y" using assms True by simp
    from fl_pos_range(1)[OF this] have "0 \<le> fl y"
      by (meson order_trans zero_le_power_int zero_le_numeral)
    then show ?thesis using True by simp
  qed
next
  case False
  then show ?thesis using assms by (intro fl_mono_pos) simp_all
qed


lemma rne_divide:
  assumes "0 < b"
  shows "rne (of_int a / of_int b) =
    (let d = a div b; m = 2 * (a mod b) in
      if m < b then d else if b < m then d + 1 else if even d then d else d + 1)"
proof -
  have b: "(0::rat) < of_int b" using assms by simp
  have f: "\<lfloor>of_int a / of_int b :: rat\<rfloor> = a div b" by (rule floor_divide_of_int_eq)
  have "(of_int a :: rat) = of_int (a div b * b + a mod b)" by simp
  also have "\<dots> = of_int (a div b) * of_int b + of_int (a mod b)" by (simp only: of_int_add of_int_mult)
  finally have r: "(of_int a / of_int b :: rat) - of_int (a div b) = of_int (a mod b) / of_int b"
    using b by (simp add: field_simps)
  have lt: "(of_int (a mod b) / of_int b :: rat) < 1 / 2 \<longleftrightarrow> 2 * (a mod b) < b"
  proof -
    have "(of_int (a mod b) / of_int b :: rat) < 1 / 2 \<longleftrightarrow> (of_int (2 * (a mod b)) :: rat) < of_int b"
      using b by (simp add: field_simps)
    then show ?thesis by (simp only: of_int_less_iff)
  qed
  have gt: "1 / 2 < (of_int (a mod b) / of_int b :: rat) \<longleftrightarrow> b < 2 * (a mod b)"
  proof -
    have "1 / 2 < (of_int (a mod b) / of_int b :: rat) \<longleftrightarrow> (of_int b :: rat) < of_int (2 * (a mod b))"
      using b by (simp add: field_simps)
    then show ?thesis by (simp only: of_int_less_iff)
  qed
  show ?thesis
    unfolding rne_def Let_def f r lt gt ..
qed

lemma rne_numeral_divide:
  "rne (numeral a / numeral b) =
    (let d = numeral a div numeral b; m = 2 * (numeral a mod numeral b :: int) in
      if m < numeral b then d else if numeral b < m then d + 1 else if even d then d else d + 1)"
  using rne_divide[of "numeral b" "numeral a"] by simp

lemma rne_numeral [simp]: "rne (numeral a) = numeral a"
  using rne_of_int[of "numeral a"] by simp

lemmas fl_eval =
  fl_cert[where e="-58"] fl_cert[where e="-57"] fl_cert[where e="-56"] fl_cert[where e="-55"]
  fl_cert[where e="-54"] fl_cert[where e="-53"] fl_cert[where e="-52"] fl_cert[where e="-51"]
  fl_cert[where e="-50"] fl_cert[where e="-49"] fl_cert[where e="-48"] fl_cert[where e="-47"]
  rne_numeral_divide Let_def fadd_def fmul_def fdiv_def py_round_def cooking_time_def

lemma fl_nonneg: "0 \<le> x \<Longrightarrow> 0 \<le> fl x"
  using fl_mono[of 0 x] by simp

lemma fl_two [simp]: "fl 2 = 2"
  by (simp add: fl_eval)

lemma fl_four [simp]: "fl 4 = 4"
  by (simp add: fl_eval)

lemma rne_nonneg: "0 \<le> q \<Longrightarrow> 0 \<le> rne q"
  using rne_mono[of 0 q] rne_of_int[of 0] by simp

lemma py_round_mono:
  assumes "0 \<le> x" "x \<le> y"
  shows "py_round x n \<le> py_round y n"
proof -
  have "x * 10 ^ n \<le> y * 10 ^ n" using assms(2) by (simp add: mult_right_mono)
  from rne_mono[OF this]
  have "(of_int (rne (x * 10 ^ n)) :: rat) \<le> of_int (rne (y * 10 ^ n))"
    by (simp only: of_int_le_iff)
  then have le: "(of_int (rne (x * 10 ^ n)) :: rat) / 10 ^ n \<le> of_int (rne (y * 10 ^ n)) / 10 ^ n"
    by (simp add: divide_right_mono)
  have "0 \<le> rne (x * 10 ^ n)" using assms(1) by (intro rne_nonneg) simp
  then have "(0::rat) \<le> of_int (rne (x * 10 ^ n)) / 10 ^ n" by simp
  from fl_mono[OF this le] show ?thesis by (simp add: py_round_def)
qed

lemma fadd_nonneg: "0 \<le> a \<Longrightarrow> 0 \<le> b \<Longrightarrow> 0 \<le> fadd a b"
  by (simp add: fadd_def fl_nonneg)

lemma fmul_nonneg: "0 \<le> a \<Longrightarrow> 0 \<le> b \<Longrightarrow> 0 \<le> fmul a b"
  by (simp add: fmul_def fl_nonneg)

lemma fadd_lower_bound:
  assumes "0 \<le> k" "fl k = k" "k \<le> a" "0 \<le> b"
  shows "k \<le> fadd a b"
proof -
  have "k \<le> a + b" using assms(3,4) by simp
  from fl_mono[OF assms(1) this] show ?thesis by (simp add: fadd_def assms(2))
qed

section \<open>Facts about strings\<close>

lemma starts_with_prefix: "starts_with kw s = prefix kw s"
  by (induction kw s rule: starts_with.induct) simp_all

lemma str_in_sublist: "str_in kw s = sublist kw s"
  by (induction s) (simp_all add: starts_with_prefix sublist_Cons_right)

section \<open>Facts about the blocks of the estimator\<close>

lemma snd_protein_detection_nonneg:
  "0 \<le> t \<Longrightarrow> 0 \<le> snd (protein_detection d (ings, t))"
  by (simp add: protein_detection_def fadd_nonneg fmul_nonneg fl_nonneg)

lemma snd_carbs_detection_nonneg:
  "0 \<le> snd p \<Longrightarrow> 0 \<le> snd (carbs_detection d p)"
  by (cases p) (simp add: carbs_detection_def fadd_nonneg fmul_nonneg fl_nonneg)

lemma fst_vegetables: "fst (vegetables d p) = fst p @ [ascii ''vegetables'']"
  by (cases p) (simp add: vegetables_def)

lemma fst_dairy: "set (fst p) \<subseteq> set (fst (dairy d p))"
  by (cases p) (auto simp add: dairy_def)

lemma cooking_methods_cases:
  "fst (cooking_method_detection d) \<in>
     {[ascii ''grill''], [ascii ''deep_fry''], [ascii ''oven''], [ascii ''raw''], [ascii ''stovetop'']}"
  by (simp add: cooking_method_detection_def)

lemma cooking_carbon_nonneg: "0 \<le> snd (cooking_method_detection d)"
  by (simp add: cooking_method_detection_def fmul_nonneg fl_nonneg fdiv_def cooking_time_def)

lemma ingredient_pass_vegetables:
  "ascii ''vegetables'' \<in> set (fst (ingredient_pass d))"
proof -
  let ?p = "carbs_detection d (protein_detection d ([], fl 0.0))"
  have "ascii ''vegetables'' \<in> set (fst (vegetables d ?p))"
    by (simp add: fst_vegetables)
  then show ?thesis
    using fst_dairy[of "vegetables d ?p" d] by (auto simp add: ingredient_pass_def)
qed

lemmas str_eval = any_in_def ascii_def ascii_lower_def

lemmas block_defs =
  estimate_carbon_footprint_def unrounded_total_def ingredient_pass_def
  protein_detection_def carbs_detection_def vegetables_def dairy_def
  cooking_method_detection_def

lemma fl_fifth: "fl (1 / 5) = 3602879701896397 / 18014398509481984"
  by (simp add: fl_eval)

lemma fl_fifth_fixed:
  "fl (3602879701896397 / 18014398509481984) = 3602879701896397 / 18014398509481984"
  by (simp add: fl_eval)

lemma vegetables_lower_bound:
  assumes "0 \<le> snd p"
  shows "3602879701896397 / 18014398509481984 \<le> snd (vegetables d p)"
proof -
  have v1: "fmul (fl 2.0) (fl 0.1) = 3602879701896397 / 18014398509481984"
    by (simp add: fl_eval)
  have v2: "fmul (fl 2.0) (fl 0.2) = 3602879701896397 / 9007199254740992"
    by (simp add: fl_eval)
  have a: "3602879701896397 / 18014398509481984 \<le> fadd (snd p) (fmul (fl 2.0) (fl 0.1))"
    unfolding v1 fadd_def using fl_mono[of "3602879701896397 / 18014398509481984"
        "snd p + 3602879701896397 / 18014398509481984"] assms
    by (simp add: fl_fifth_fixed)
  have b: "3602879701896397 / 18014398509481984 \<le> fadd (snd p) (fmul (fl 2.0) (fl 0.2))"
    unfolding v2 fadd_def using fl_mono[of "3602879701896397 / 18014398509481984"
        "snd p + 3602879701896397 / 9007199254740992"] assms
    by (simp add: fl_fifth_fixed)
  show ?thesis
    using a b by (cases p) (simp add: vegetables_def)
qed

lemma dairy_lower_bound:
  assumes "3602879701896397 / 18014398509481984 \<le> snd p"
  shows "3602879701896397 / 18014398509481984 \<le> snd (dairy d p)"
proof -
  have "3602879701896397 / 18014398509481984 \<le> fadd (snd p) (fmul (fl 13.5) (fl 0.05))"
    using assms by (intro fadd_lower_bound fl_fifth_fixed fmul_nonneg fl_nonneg) simp_all
  then show ?thesis using assms by (cases p) (simp add: dairy_def)
qed

lemma ingredient_pass_lower_bound:
  "3602879701896397 / 18014398509481984 \<le> snd (ingredient_pass d)"
proof -
  have "0 \<le> snd (protein_detection d ([], fl 0.0))"
    by (intro snd_protein_detection_nonneg) simp
  then have "0 \<le> snd (carbs_detection d (protein_detection d ([], fl 0.0)))"
    by (rule snd_carbs_detection_nonneg)
  then show ?thesis
    unfolding ingredient_pass_def by (intro dairy_lower_bound vegetables_lower_bound)
qed

lemma unrounded_total_lower_bound:
  "3602879701896397 / 18014398509481984 \<le> unrounded_total d"
  unfolding unrounded_total_def
  by (intro fadd_lower_bound fl_fifth_fixed ingredient_pass_lower_bound cooking_carbon_nonneg) simp

lemma py_round_two: "py_round 2 2 = 2"
  by (simp add: py_round_def)

lemma py_round_fifth: "py_round (3602879701896397 / 18014398509481984) 2 = 3602879701896397 / 18014398509481984"
  by (simp add: fl_eval)

lemma fadd_contribution_lower_bound:
  assumes "0 \<le> k" "fl k = k" "k \<le> t" "0 \<le> a" "0 \<le> b"
  shows "k \<le> fadd t (fmul a b)"
  using assms by (intro fadd_lower_bound fmul_nonneg)

lemma carbs_detection_keeps_lower_bound:
  assumes "0 \<le> k" "fl k = k" "k \<le> snd p"
  shows "k \<le> snd (carbs_detection d p)"
  using assms
  by (cases p) (simp add: carbs_detection_def fadd_contribution_lower_bound fl_nonneg)

lemma vegetables_keeps_lower_bound:
  assumes "0 \<le> k" "fl k = k" "k \<le> snd p"
  shows "k \<le> snd (vegetables d p)"
  using assms
  by (cases p) (simp add: vegetables_def fadd_contribution_lower_bound fl_nonneg)

lemma dairy_keeps_lower_bound:
  assumes "0 \<le> k" "fl k = k" "k \<le> snd p"
  shows "k \<le> snd (dairy d p)"
  using assms
  by (cases p) (simp add: dairy_def fadd_contribution_lower_bound fl_nonneg)

lemma fl_beef_fixed: "fl (27 / 4) = 27 / 4"
  by (simp add: fl_eval)

lemma py_round_beef: "py_round (27 / 4) 2 = 27 / 4"
  by (simp add: fl_eval)

lemma estimate_empty_name:
  "estimate_carbon_footprint ascii_lower self []
     = \<lparr> d_ingredients = [ascii ''vegetables''],
         d_cooking_methods = [ascii ''stovetop''],
         d_total_carbon = fl 0.8,
         d_is_eco_friendly = True \<rparr>"
  by (simp add: block_defs str_eval) (simp add: fl_eval)

section \<open>The claims\<close>

text \<open>
  C7. For every input string, the result of the estimator has the tag
  \<open>vegetables\<close> among its ingredients, and its cooking methods are a list of exactly
  one element, which is one of \<open>grill\<close>, \<open>deep_fry\<close>, \<open>oven\<close>, \<open>raw\<close>, \<open>stovetop\<close>.
\<close>

theorem estimate_vegetables_and_one_method:
  "ascii ''vegetables'' \<in> set (d_ingredients (estimate_carbon_footprint lower self dish_name))
   \<and> length (d_cooking_methods (estimate_carbon_footprint lower self dish_name)) = 1
   \<and> d_cooking_methods (estimate_carbon_footprint lower self dish_name) \<in>
       {[ascii ''grill''], [ascii ''deep_fry''], [ascii ''oven''], [ascii ''raw''],
        [ascii ''stovetop'']}"
proof -
  let ?d = "lower dish_name"
  have m: "fst (cooking_method_detection ?d) \<in>
     {[ascii ''grill''], [ascii ''deep_fry''], [ascii ''oven''], [ascii ''raw''], [ascii ''stovetop'']}"
    by (rule cooking_methods_cases)
  then have "length (fst (cooking_method_detection ?d)) = 1" by auto
  with m ingredient_pass_vegetables[of ?d] show ?thesis
    by (simp add: estimate_carbon_footprint_def Let_def)
qed

text \<open>
  C6. For every dish name whose lowercased form contains \<open>beef\<close>, \<open>steak\<close> or
  \<open>hamburger\<close>, the ingredients of the result start with \<open>beef\<close>, and the protein
  block adds exactly \<open>27.0 * 0.25 = 6.75\<close> to the running total, which starts at
  0.0. That 6.75 is what the later blocks add to: the total before rounding is the
  result of the carbohydrate, vegetable and dairy blocks run from \<open>([beef], 6.75)\<close>,
  plus the cooking contribution, so neither it nor the rounded total of the result
  is below 6.75. The beef branch is tested first, so the theorem does not need the
  claim's further condition that no chicken, fish, pork or lamb keyword occurs.
\<close>

theorem beef_first_ingredient:
  assumes "str_in (ascii ''beef'') (lower dish_name)
         \<or> str_in (ascii ''steak'') (lower dish_name)
         \<or> str_in (ascii ''hamburger'') (lower dish_name)"
  shows "hd (d_ingredients (estimate_carbon_footprint lower self dish_name)) = ascii ''beef''
       \<and> d_ingredients (estimate_carbon_footprint lower self dish_name) \<noteq> []
       \<and> protein_detection (lower dish_name) (ings, t)
           = (ings @ [ascii ''beef''], fadd t (fmul (fl 27.0) (fl 0.25)))
       \<and> fmul (fl 27.0) (fl 0.25) = 6.75
       \<and> protein_detection (lower dish_name) ([], fl 0.0) = ([ascii ''beef''], 6.75)
       \<and> ingredient_pass (lower dish_name)
           = dairy (lower dish_name) (vegetables (lower dish_name)
               (carbs_detection (lower dish_name) ([ascii ''beef''], 6.75)))
       \<and> unrounded_total (lower dish_name)
           = fadd (snd (dairy (lower dish_name) (vegetables (lower dish_name)
                     (carbs_detection (lower dish_name) ([ascii ''beef''], 6.75)))))
                  (snd (cooking_method_detection (lower dish_name)))
       \<and> 6.75 \<le> unrounded_total (lower dish_name)
       \<and> d_total_carbon (estimate_carbon_footprint lower self dish_name)
           = py_round (unrounded_total (lower dish_name)) 2
       \<and> 6.75 \<le> d_total_carbon (estimate_carbon_footprint lower self dish_name)"
proof -
  let ?d = "lower dish_name"
  let ?r = "estimate_carbon_footprint lower self dish_name"
  have b: "any_in [ascii ''beef'', ascii ''steak'', ascii ''hamburger''] ?d"
    using assms by (auto simp add: any_in_def)
  have v: "fmul (fl 27.0) (fl 0.25) = 6.75"
    by (simp add: fl_eval)
  have p: "protein_detection ?d (ings, t) = (ings @ [ascii ''beef''], fadd t (fmul (fl 27.0) (fl 0.25)))"
    for ings t
    using b by (simp add: protein_detection_def)
  have p0: "protein_detection ?d ([], fl 0.0) = ([ascii ''beef''], 6.75)"
    by (simp add: p v) (simp add: fl_eval)
  have "\<exists>rest. fst (ingredient_pass ?d) = ascii ''beef'' # rest"
    by (simp add: ingredient_pass_def p carbs_detection_def vegetables_def dairy_def)
  then obtain rest where i: "d_ingredients ?r = ascii ''beef'' # rest"
    by (auto simp add: estimate_carbon_footprint_def Let_def)
  have ip: "ingredient_pass ?d
      = dairy ?d (vegetables ?d (carbs_detection ?d ([ascii ''beef''], 6.75)))"
    unfolding ingredient_pass_def p0 ..
  have u: "unrounded_total ?d
      = fadd (snd (dairy ?d (vegetables ?d (carbs_detection ?d ([ascii ''beef''], 6.75)))))
             (snd (cooking_method_detection ?d))"
    unfolding unrounded_total_def ip ..
  have k: "(0::rat) \<le> 27 / 4" "fl (27 / 4) = 27 / 4"
    by (simp_all add: fl_beef_fixed)
  have "27 / 4 \<le> snd (carbs_detection ?d ([ascii ''beef''], 27 / 4))"
    by (intro carbs_detection_keeps_lower_bound k) simp
  then have "27 / 4 \<le> snd (vegetables ?d (carbs_detection ?d ([ascii ''beef''], 27 / 4)))"
    by (intro vegetables_keeps_lower_bound k)
  then have "27 / 4 \<le> snd (dairy ?d (vegetables ?d (carbs_detection ?d ([ascii ''beef''], 27 / 4))))"
    by (intro dairy_keeps_lower_bound k)
  then have "27 / 4 \<le> fadd (snd (dairy ?d (vegetables ?d (carbs_detection ?d ([ascii ''beef''], 27 / 4)))))
             (snd (cooking_method_detection ?d))"
    by (intro fadd_lower_bound k cooking_carbon_nonneg)
  then have lb: "6.75 \<le> unrounded_total ?d"
    unfolding u by simp
  have t: "d_total_carbon ?r = py_round (unrounded_total ?d) 2"
    by (simp add: estimate_carbon_footprint_def Let_def)
  have "py_round (27 / 4) 2 \<le> py_round (unrounded_total ?d) 2"
    using lb by (intro py_round_mono) simp_all
  then have lt: "6.75 \<le> d_total_carbon ?r"
    by (simp add: t py_round_beef)
  have h: "hd (d_ingredients ?r) = ascii ''beef''" "d_ingredients ?r \<noteq> []"
    using i by simp_all
  from h p p0 v ip u lb t lt show ?thesis by blast
qed

theorem beef_first_ingredient_witness:
  "hd (d_ingredients (estimate_carbon_footprint ascii_lower CarbonCalculator_init
         (ascii ''Classic Beef Burger''))) = ascii ''beef''
   \<and> protein_detection (ascii_lower (ascii ''Classic Beef Burger'')) ([], fl 0.0)
        = ([ascii ''beef''], 6.75)
   \<and> 6.75 \<le> unrounded_total (ascii_lower (ascii ''Classic Beef Burger''))
   \<and> 6.75 \<le> d_total_carbon (estimate_carbon_footprint ascii_lower CarbonCalculator_init
         (ascii ''Classic Beef Burger''))"
proof -
  have h: "str_in (ascii ''beef'') (ascii_lower (ascii ''Classic Beef Burger''))
         \<or> str_in (ascii ''steak'') (ascii_lower (ascii ''Classic Beef Burger''))
         \<or> str_in (ascii ''hamburger'') (ascii_lower (ascii ''Classic Beef Burger''))"
    by (simp add: str_eval)
  from beef_first_ingredient[where lower = ascii_lower
      and dish_name = "ascii ''Classic Beef Burger''"
      and self = CarbonCalculator_init and ings = "[]" and t = 0, OF h]
  show ?thesis by blast
qed

text \<open>
  C4. \<open>estimate("Grilled Chicken Caesar Salad")\<close>: the ingredients are \<open>chicken\<close>
  and \<open>vegetables\<close>, the cooking method is \<open>grill\<close> (the grill branch comes before
  the raw branch that \<open>salad\<close> would take), the total is
  \<open>round(6.9*0.20 + 2.0*0.20 + 3.5*(20/60), 2) = 2.95\<close>, and the item is not
  eco-friendly.
\<close>

theorem grilled_chicken_caesar_salad:
  "estimate_carbon_footprint ascii_lower self (ascii ''Grilled Chicken Caesar Salad'')
     = \<lparr> d_ingredients = [ascii ''chicken'', ascii ''vegetables''],
         d_cooking_methods = [ascii ''grill''],
         d_total_carbon = fl 2.95,
         d_is_eco_friendly = False \<rparr>
   \<and> py_round (fadd (fadd (fmul (fl 6.9) (fl 0.20)) (fmul (fl 2.0) (fl 0.20)))
                      (fmul (fl 3.5) (fdiv 20 60))) 2 = fl 2.95"
proof -
  let ?d = "ascii_lower (ascii ''Grilled Chicken Caesar Salad'')"
  have p: "protein_detection ?d ([], fl 0.0) = ([ascii ''chicken''], fadd (fl 0.0) (fmul (fl 6.9) (fl 0.2)))"
    by (simp add: protein_detection_def str_eval)
  have c: "carbs_detection ?d p = p" for p
    by (cases p) (simp add: carbs_detection_def str_eval)
  have v: "vegetables ?d (ings, t) = (ings @ [ascii ''vegetables''], fadd t (fmul (fl 2.0) (fl 0.2)))"
    for ings t
    by (simp add: vegetables_def str_eval)
  have d: "dairy ?d p = p" for p
    by (cases p) (simp add: dairy_def str_eval)
  have k: "cooking_method_detection ?d = ([ascii ''grill''], fmul (fl 3.5) (fdiv cooking_time 60))"
    by (simp add: cooking_method_detection_def str_eval)
  have i: "ingredient_pass ?d = ([ascii ''chicken'', ascii ''vegetables''],
      fadd (fadd (fl 0.0) (fmul (fl 6.9) (fl 0.2))) (fmul (fl 2.0) (fl 0.2)))"
    by (simp only: ingredient_pass_def p c v d append.simps)
  have u: "unrounded_total ?d = 6635303450992531 / 2251799813685248"
    unfolding unrounded_total_def i k by (simp add: fl_eval)
  have r: "py_round (6635303450992531 / 2251799813685248) 2 = fl 2.95"
    by (simp add: fl_eval)
  have e: "\<not> (6635303450992531 / 2251799813685248 < fl 2.0)"
    by simp
  have 1: "estimate_carbon_footprint ascii_lower self (ascii ''Grilled Chicken Caesar Salad'')
     = \<lparr> d_ingredients = [ascii ''chicken'', ascii ''vegetables''],
         d_cooking_methods = [ascii ''grill''],
         d_total_carbon = fl 2.95,
         d_is_eco_friendly = False \<rparr>"
    unfolding estimate_carbon_footprint_def Let_def u r by (simp only: i k e fst_conv)
  have 2: "py_round (fadd (fadd (fmul (fl 6.9) (fl 0.20)) (fmul (fl 2.0) (fl 0.20)))
                      (fmul (fl 3.5) (fdiv 20 60))) 2 = fl 2.95"
    by (simp add: fl_eval)
  from 1 2 show ?thesis by (rule conjI)
qed

text \<open>
  C9. For every input string the \<open>total_carbon\<close> of the result is at least the
  float \<open>0.2\<close>, the contribution \<open>2.0 * 0.1\<close> of the default vegetable branch, which
  is itself above the real number 1/5; so it is strictly positive. The bound is
  attained by \<open>fresh\<close>, which matches the raw cooking branch only.
\<close>

theorem total_carbon_at_least_fifth:
  "fl 0.2 \<le> d_total_carbon (estimate_carbon_footprint lower self dish_name)
   \<and> 0.2 \<le> d_total_carbon (estimate_carbon_footprint lower self dish_name)
   \<and> 0 < d_total_carbon (estimate_carbon_footprint lower self dish_name)
   \<and> fmul (fl 2.0) (fl 0.1) = fl 0.2
   \<and> d_total_carbon (estimate_carbon_footprint ascii_lower self (ascii ''fresh'')) = fl 0.2"
proof -
  let ?k = "3602879701896397 / 18014398509481984 :: rat"
  let ?t = "d_total_carbon (estimate_carbon_footprint lower self dish_name)"
  have t: "?t = py_round (unrounded_total (lower dish_name)) 2"
    by (simp add: estimate_carbon_footprint_def Let_def)
  have "py_round ?k 2 \<le> py_round (unrounded_total (lower dish_name)) 2"
    by (intro py_round_mono unrounded_total_lower_bound) simp
  then have k: "?k \<le> ?t"
    by (simp only: t py_round_fifth)
  have f: "fl 0.2 = ?k" using fl_fifth by simp
  have v: "fmul (fl 2.0) (fl 0.1) = fl 0.2"
    unfolding f by (simp add: fl_eval)
  have e: "d_total_carbon (estimate_carbon_footprint ascii_lower self (ascii ''fresh'')) = fl 0.2"
    unfolding f by (simp add: block_defs str_eval) (simp add: fl_eval)
  have 1: "fl 0.2 \<le> ?t" using k by (simp only: f)
  have 2: "0.2 \<le> ?t" using k by simp
  have 3: "0 < ?t" using k by simp
  from 1 2 3 v e show ?thesis by blast
qed

text \<open>
  C1, as the code has it. \<open>is_eco_friendly\<close> compares the total before it is
  rounded: it is true exactly when that total is below 2.0. For the rounded
  \<open>total_carbon\<close> of the result (the \<open>carbon_footprint\<close> of the menu item) this gives:
  a rounded total below 2.0 implies eco-friendly, and eco-friendly implies a rounded
  total of at most 2.0.
\<close>

theorem eco_friendly_iff_unrounded_below_two:
  "(d_is_eco_friendly (estimate_carbon_footprint lower self dish_name)
      \<longleftrightarrow> unrounded_total (lower dish_name) < 2.0)
   \<and> d_total_carbon (estimate_carbon_footprint lower self dish_name)
       = py_round (unrounded_total (lower dish_name)) 2
   \<and> (d_total_carbon (estimate_carbon_footprint lower self dish_name) < 2.0
        \<longrightarrow> d_is_eco_friendly (estimate_carbon_footprint lower self dish_name))
   \<and> (d_is_eco_friendly (estimate_carbon_footprint lower self dish_name)
        \<longrightarrow> d_total_carbon (estimate_carbon_footprint lower self dish_name) \<le> 2.0)"
proof -
  let ?u = "unrounded_total (lower dish_name)"
  let ?r = "estimate_carbon_footprint lower self dish_name"
  have e: "d_is_eco_friendly ?r \<longleftrightarrow> ?u < 2"
    by (simp add: estimate_carbon_footprint_def Let_def)
  have t: "d_total_carbon ?r = py_round ?u 2"
    by (simp add: estimate_carbon_footprint_def Let_def)
  have nonneg: "0 \<le> ?u"
    using unrounded_total_lower_bound[of "lower dish_name"] by simp
  have up: "2 \<le> d_total_carbon ?r" if "2 \<le> ?u"
    using py_round_mono[of 2 ?u 2] that by (simp add: t py_round_two)
  have down: "d_total_carbon ?r \<le> 2" if "?u < 2"
    using py_round_mono[of ?u 2 2] that nonneg by (simp add: t py_round_two)
  have 3: "d_total_carbon ?r < 2 \<longrightarrow> d_is_eco_friendly ?r"
    using up e by fastforce
  have 4: "d_is_eco_friendly ?r \<longrightarrow> d_total_carbon ?r \<le> 2"
    using down e by blast
  from e t 3 4 show ?thesis by simp
qed

theorem eco_friendly_iff_unrounded_below_two_witness:
  "d_total_carbon (estimate_carbon_footprint ascii_lower CarbonCalculator_init
       (ascii ''Seasonal Fruit Bowl'')) < 2.0
   \<and> d_is_eco_friendly (estimate_carbon_footprint ascii_lower CarbonCalculator_init
       (ascii ''Seasonal Fruit Bowl''))
   \<and> d_total_carbon (estimate_carbon_footprint ascii_lower CarbonCalculator_init
       (ascii ''Seasonal Fruit Bowl'')) \<le> 2.0"
proof -
  have h: "d_total_carbon (estimate_carbon_footprint ascii_lower CarbonCalculator_init
       (ascii ''Seasonal Fruit Bowl'')) < 2.0"
    by (simp add: block_defs str_eval) (simp add: fl_eval)
  from eco_friendly_iff_unrounded_below_two[where lower = ascii_lower
      and self = CarbonCalculator_init and dish_name = "ascii ''Seasonal Fruit Bowl''"] h
  show ?thesis by blast
qed

text \<open>
  C1, as stated, fails: \<open>Fried Cheese Sandwich\<close> adds bread \<open>0.9 * 0.08\<close>, the
  default vegetables \<open>2.0 * 0.1\<close>, cheese \<open>13.5 * 0.05\<close> and frying
  \<open>4.2 * (15 / 60)\<close>, 1.997 before rounding. The item is eco-friendly, and its
  rounded total is 2.0, which is not below 2.0.
\<close>

theorem eco_friendly_rounded_counterexample:
  "\<not> (d_is_eco_friendly (estimate_carbon_footprint ascii_lower CarbonCalculator_init
          (ascii ''Fried Cheese Sandwich''))
       \<longleftrightarrow> d_total_carbon (estimate_carbon_footprint ascii_lower CarbonCalculator_init
          (ascii ''Fried Cheese Sandwich'')) < 2.0)"
proof -
  have u: "unrounded_total (ascii_lower (ascii ''Fried Cheese Sandwich''))
      = 8993688455858881 / 4503599627370496"
    by (simp add: block_defs str_eval) (simp add: fl_eval)
  have r: "py_round (8993688455858881 / 4503599627370496) 2 = 2"
    by (simp add: fl_eval)
  show ?thesis
    by (simp add: estimate_carbon_footprint_def Let_def u r)
qed

text \<open>
  C2. On an empty menu \<open>generate_html_menu\<close> guards the average
  (\<open>... if total_items > 0 else 0\<close>) but not the percentage in the header of the
  page: \<open>eco_items/total_items*100\<close> raises \<open>ZeroDivisionError\<close>, the handler
  catches it, and the method returns the empty string without writing the menu.
  \<open>generate_report\<close> returns before it divides.
\<close>

theorem html_statistics_empty_menu:
  "html_statistics [] = Inl ZeroDivisionError
   \<and> generate_html_menu (QRMenuSystem_init rname) filename = []
   \<and> report_statistics [] = Inr None"
  by (simp add: html_statistics_def generate_html_menu_def report_statistics_def
      QRMenuSystem_init_def py_truediv_def)

text \<open>
  C3. The three lists of the carbon distribution (below 2.0, from 2.0 to below
  4.0, 4.0 and above) split every list of menu items: their lengths add up to the
  number of items, together they hold each item as often as the menu does, and no
  item is in two of them. For a non-empty menu these lengths are the three counts of
  the report and their sum is its \<open>total_items\<close>.
\<close>

theorem carbon_buckets_partition:
  "length (low_carbon_items items) + length (medium_carbon_items items)
     + length (high_carbon_items items) = length items
   \<and> mset (low_carbon_items items) + mset (medium_carbon_items items)
     + mset (high_carbon_items items) = mset items
   \<and> set (low_carbon_items items) \<inter> set (medium_carbon_items items) = {}
   \<and> set (low_carbon_items items) \<inter> set (high_carbon_items items) = {}
   \<and> set (medium_carbon_items items) \<inter> set (high_carbon_items items) = {}
   \<and> (\<exists>r. report_statistics (i # items) = Inr (Some r)
          \<and> r_low_count r + r_medium_count r + r_high_count r = r_total_items r
          \<and> r_total_items r = length (i # items))"
proof -
  have len: "length (low_carbon_items xs) + length (medium_carbon_items xs)
     + length (high_carbon_items xs) = length xs" for xs
    by (induction xs)
       (auto simp add: low_carbon_items_def medium_carbon_items_def high_carbon_items_def)
  have ms: "mset (low_carbon_items items) + mset (medium_carbon_items items)
     + mset (high_carbon_items items) = mset items"
    by (induction items)
       (auto simp add: low_carbon_items_def medium_carbon_items_def high_carbon_items_def)
  have d1: "set (low_carbon_items items) \<inter> set (medium_carbon_items items) = {}"
    by (auto simp add: low_carbon_items_def medium_carbon_items_def)
  have d2: "set (low_carbon_items items) \<inter> set (high_carbon_items items) = {}"
    by (auto simp add: low_carbon_items_def high_carbon_items_def)
  have d3: "set (medium_carbon_items items) \<inter> set (high_carbon_items items) = {}"
    by (auto simp add: medium_carbon_items_def high_carbon_items_def)
  have rep: "\<exists>r. report_statistics (i # items) = Inr (Some r)
          \<and> r_low_count r + r_medium_count r + r_high_count r = r_total_items r
          \<and> r_total_items r = length (i # items)"
    using len[of "i # items"]
    by (simp add: report_statistics_def py_truediv_def Let_def del: of_nat_Suc)
  from len[of items] ms d1 d2 d3 rep show ?thesis by blast
qed

text \<open>
  C5. The list the three lowest and the three highest items are taken from is
  the menu sorted by ascending \<open>carbon_footprint\<close>, and the sort is stable: for every
  value \<open>k\<close>, the items of footprint \<open>k\<close> are in the sorted list in their order in
  the menu. So in \<open>lowest_carbon\<close> they are a first part, and in \<open>highest_carbon\<close> a
  last part, of the menu's items of footprint \<open>k\<close>, in the menu's order. A menu of
  fewer than three items gives both slices all its items, sorted.
\<close>

theorem sorted_slices_stable:
  "sorted (map carbon_footprint (sorted_items items))
   \<and> mset (sorted_items items) = mset items
   \<and> filter (\<lambda>i. carbon_footprint i = k) (sorted_items items)
       = filter (\<lambda>i. carbon_footprint i = k) items
   \<and> lowest_carbon items = take 3 (sorted_items items)
   \<and> highest_carbon items = drop (length items - 3) (sorted_items items)
   \<and> prefix (filter (\<lambda>i. carbon_footprint i = k) (lowest_carbon items))
             (filter (\<lambda>i. carbon_footprint i = k) items)
   \<and> suffix (filter (\<lambda>i. carbon_footprint i = k) (highest_carbon items))
             (filter (\<lambda>i. carbon_footprint i = k) items)
   \<and> (length items < 3 \<longrightarrow>
        lowest_carbon items = sorted_items items
        \<and> highest_carbon items = sorted_items items
        \<and> length (lowest_carbon items) = length items)"
proof -
  let ?s = "sorted_items items"
  let ?f = "filter (\<lambda>i. carbon_footprint i = k)"
  have 1: "sorted (map carbon_footprint ?s)" by (simp add: sorted_items_def)
  have 2: "mset ?s = mset items" by (simp add: sorted_items_def)
  have 3: "?f ?s = ?f items" unfolding sorted_items_def by (rule sort_key_stable)
  have len: "length ?s = length items" by (simp add: sorted_items_def)
  have 4: "lowest_carbon items = take 3 ?s" by (simp add: lowest_carbon_def first3_def)
  have 5: "highest_carbon items = drop (length items - 3) ?s"
    by (simp add: highest_carbon_def last3_def len)
  have "?f ?s = ?f (take 3 ?s) @ ?f (drop 3 ?s)"
    by (simp flip: filter_append)
  then have 6: "prefix (?f (lowest_carbon items)) (?f items)"
    unfolding 3 4 by (metis prefixI)
  have "?f ?s = ?f (take (length items - 3) ?s) @ ?f (drop (length items - 3) ?s)"
    by (simp flip: filter_append)
  then have 7: "suffix (?f (highest_carbon items)) (?f items)"
    unfolding 3 5 by (metis suffixI)
  have 8: "length items < 3 \<longrightarrow>
        lowest_carbon items = ?s \<and> highest_carbon items = ?s
        \<and> length (lowest_carbon items) = length items"
    by (simp add: 4 5 len)
  from 1 2 3 4 5 6 7 8 show ?thesis by blast
qed

theorem sorted_slices_stable_witness:
  "lowest_carbon
     [\<lparr> name = ascii ''Soup'', price = 30, description = [], carbon_footprint = fl 0.8,
         is_eco_friendly = True, ingredients = [], cooking_methods = [] \<rparr>,
      \<lparr> name = ascii ''Stew'', price = 40, description = [], carbon_footprint = fl 0.8,
         is_eco_friendly = True, ingredients = [], cooking_methods = [] \<rparr>]
   = [\<lparr> name = ascii ''Soup'', price = 30, description = [], carbon_footprint = fl 0.8,
         is_eco_friendly = True, ingredients = [], cooking_methods = [] \<rparr>,
      \<lparr> name = ascii ''Stew'', price = 40, description = [], carbon_footprint = fl 0.8,
         is_eco_friendly = True, ingredients = [], cooking_methods = [] \<rparr>]
   \<and> highest_carbon
     [\<lparr> name = ascii ''Soup'', price = 30, description = [], carbon_footprint = fl 0.8,
         is_eco_friendly = True, ingredients = [], cooking_methods = [] \<rparr>,
      \<lparr> name = ascii ''Stew'', price = 40, description = [], carbon_footprint = fl 0.8,
         is_eco_friendly = True, ingredients = [], cooking_methods = [] \<rparr>]
   = [\<lparr> name = ascii ''Soup'', price = 30, description = [], carbon_footprint = fl 0.8,
         is_eco_friendly = True, ingredients = [], cooking_methods = [] \<rparr>,
      \<lparr> name = ascii ''Stew'', price = 40, description = [], carbon_footprint = fl 0.8,
         is_eco_friendly = True, ingredients = [], cooking_methods = [] \<rparr>]"
proof -
  let ?a = "\<lparr> name = ascii ''Soup'', price = 30, description = [], carbon_footprint = fl 0.8,
         is_eco_friendly = True, ingredients = [], cooking_methods = [] \<rparr>"
  let ?b = "\<lparr> name = ascii ''Stew'', price = 40, description = [], carbon_footprint = fl 0.8,
         is_eco_friendly = True, ingredients = [], cooking_methods = [] \<rparr>"
  have h: "length [?a, ?b] < 3" by simp
  have s: "sorted_items [?a, ?b] = [?a, ?b]" by (simp add: sorted_items_def)
  from sorted_slices_stable[where items = "[?a, ?b]" and k = "fl 0.8"] h s
  show ?thesis by simp
qed

text \<open>
  C10. \<open>add_menu_item\<close> appends exactly one item, the one it returns, at the end
  of \<open>menu_items\<close>; the items stored before, the restaurant name and the calculator
  are unchanged. With the empty description the stored description is
  \<open>Delicious\<close>, a space and the lowercased name.
\<close>

theorem add_menu_item_appends:
  "menu_items (fst (add_menu_item lower self nm pr descr))
     = menu_items self @ [snd (add_menu_item lower self nm pr descr)]
   \<and> length (menu_items (fst (add_menu_item lower self nm pr descr)))
     = length (menu_items self) + 1
   \<and> take (length (menu_items self)) (menu_items (fst (add_menu_item lower self nm pr descr)))
     = menu_items self
   \<and> restaurant_name (fst (add_menu_item lower self nm pr descr)) = restaurant_name self
   \<and> calculator (fst (add_menu_item lower self nm pr descr)) = calculator self
   \<and> name (snd (add_menu_item lower self nm pr descr)) = nm
   \<and> price (snd (add_menu_item lower self nm pr descr)) = pr
   \<and> (descr = [] \<longrightarrow>
        description (snd (add_menu_item lower self nm pr descr))
          = ascii ''Delicious '' @ lower nm)"
  by (simp add: add_menu_item_def Let_def)

theorem add_menu_item_appends_witness:
  "description (snd (add_menu_item ascii_lower (QRMenuSystem_init (ascii ''Green Restaurant''))
       (ascii ''Lentil Soup'') 30 []))
     = ascii ''Delicious lentil soup''
   \<and> menu_items (fst (add_menu_item ascii_lower (QRMenuSystem_init (ascii ''Green Restaurant''))
       (ascii ''Lentil Soup'') 30 []))
     = [snd (add_menu_item ascii_lower (QRMenuSystem_init (ascii ''Green Restaurant''))
       (ascii ''Lentil Soup'') 30 [])]"
proof -
  have h: "([] :: str) = []" by simp
  have l: "ascii ''Delicious '' @ ascii_lower (ascii ''Lentil Soup'') = ascii ''Delicious lentil soup''"
    by (simp add: str_eval)
  have m: "menu_items (QRMenuSystem_init (ascii ''Green Restaurant'')) = []"
    by (simp add: QRMenuSystem_init_def)
  from add_menu_item_appends[where lower = ascii_lower
      and self = "QRMenuSystem_init (ascii ''Green Restaurant'')"
      and nm = "ascii ''Lentil Soup''" and pr = 30 and descr = "[]"] h l m
  show ?thesis by simp
qed

end
